theory Spec2Isabelle
  imports Main "HOL-Library.Sublist"
begin

section \<open>Values, exceptions and observable effects\<close>

text \<open>
  The gateway of \<^verbatim>\<open>backend/app.py\<close> is embedded as pure functions. Everything the
  Python code takes from outside (the Gradio client constructor, the HTTP layer, the
  bound clients' remote operation, the local file system, the clock, the parsed
  request) is an explicit input; everything it does to the outside (construction attempts,
  waits, HTTP requests, file writes, remote calls, copies) is recorded, in order, as a list
  of events. \<^verbatim>\<open>print\<close> lines are not recorded. A Python string is a list of
  characters, each standing for one code point below 256.
\<close>

datatype json =
    JNull
  | JBool bool
  | JInt int
  | JStr string
  | JList "json list"
  | JDict "(string \<times> json) list"

text \<open>
  An exception whose class derives from \<^verbatim>\<open>Exception\<close>: its class and the text
  that \<^verbatim>\<open>str(e)\<close> gives.
\<close>

datatype exn = PyExn (exn_class: string) (exn_msg: string)

text \<open>
  What a call into the environment may raise: an \<^verbatim>\<open>Exception\<close>, which an
  \<^verbatim>\<open>except Exception\<close> clause catches, or an exception outside that class
  (\<^verbatim>\<open>SystemExit\<close>, \<^verbatim>\<open>KeyboardInterrupt\<close>, \<^verbatim>\<open>GeneratorExit\<close>), which it
  lets through.
\<close>

datatype raised = Exception exn | BaseException (base_class: string) (base_msg: string)

text \<open>A Gradio client, connected to the endpoint it was constructed with.\<close>

datatype client = Client (endpoint: string)

text \<open>
  An argument of a remote call: a plain value, or \<^verbatim>\<open>file(path)\<close>. Building the
  file handle is part of the call: whatever it raises, the call raises.
\<close>

datatype arg = Val json | File string

text \<open>
  The events: a client construction attempt on an address, a wait, an HTTP GET, opening a
  file for writing (which empties it), one write of bytes to a file, closing a file, saving
  an uploaded file under a path, a remote call of a client, and a copy. Each event is the
  attempt: whether it succeeded or raised is what the environment says.
\<close>

datatype event =
    Connect string
  | Sleep int
  | HttpGet string
  | FileOpen string
  | FileWrite string string
  | FileClose string
  | SaveUpload string string
  | RemoteCall client "arg list"
  | CopyFile json string

text \<open>A computation that may raise, with the events it performed up to that point.\<close>

type_synonym 'a comp = "(raised + 'a) \<times> event list"

definition ret :: "'a \<Rightarrow> 'a comp" where
  "ret x = (Inr x, [])"

text \<open>A step of the interpreter itself: it raises an \<^verbatim>\<open>Exception\<close> or gives a value.\<close>

definition lift :: "exn + 'a \<Rightarrow> 'a comp" where
  "lift r = (case r of Inl e \<Rightarrow> (Inl (Exception e), []) | Inr x \<Rightarrow> (Inr x, []))"

definition bind :: "'a comp \<Rightarrow> ('a \<Rightarrow> 'b comp) \<Rightarrow> 'b comp" where
  "bind m f =
     (case m of
        (Inl e, evs) \<Rightarrow> (Inl e, evs)
      | (Inr x, evs) \<Rightarrow> (case f x of (r, evs') \<Rightarrow> (r, evs @ evs')))"

section \<open>Directory configuration\<close>

definition sep :: char where
  "sep = CHR 0x5C"

definition joinpath :: "string \<Rightarrow> string \<Rightarrow> string" where
  "joinpath p q = p @ [sep] @ q"

definition BASE_DIR :: string where
  "BASE_DIR = ''C:'' @ [sep] @ ''Users'' @ [sep] @ ''deeks'' @ [sep] @ ''fashion-recommendation-sys''"

definition BACKEND_DIR :: string where
  "BACKEND_DIR = joinpath BASE_DIR ''backend''"

definition UPLOADS_DIR :: string where
  "UPLOADS_DIR = joinpath BACKEND_DIR ''uploads''"

definition PUBLIC_DIR :: string where
  "PUBLIC_DIR = joinpath (joinpath BASE_DIR ''frontend'') ''public''"

section \<open>Endpoint resolution at startup\<close>

text \<open>
  \<^verbatim>\<open>Client(url)\<close> is an input: given everything that happened so far and the
  address, it either raises an \<^verbatim>\<open>Exception\<close> (\<open>Some e\<close>) or yields a client for
  that address (\<open>None\<close>).
\<close>

type_synonym net = "event list \<Rightarrow> string \<Rightarrow> exn option"

text \<open>The body of the \<^verbatim>\<open>for attempt in range(max_retries)\<close> loop, over the attempts left.\<close>

fun attempt_loop :: "net \<Rightarrow> string \<Rightarrow> int \<Rightarrow> int list \<Rightarrow> event list \<Rightarrow> client option \<times> event list" where
  "attempt_loop nt url max_retries [] h = (None, h)"
| "attempt_loop nt url max_retries (attempt # rest) h =
     (case nt h url of
        None \<Rightarrow> (Some (Client url), h @ [Connect url])
      | Some e \<Rightarrow>
          attempt_loop nt url max_retries rest
            (if attempt < max_retries - 1 then h @ [Connect url, Sleep 2] else h @ [Connect url]))"

definition initialize_gradio_client :: "net \<Rightarrow> string \<Rightarrow> int \<Rightarrow> event list \<Rightarrow> client option \<times> event list" where
  "initialize_gradio_client nt url max_retries h = attempt_loop nt url max_retries [0..max_retries - 1] h"

definition CLIENTS :: "(string \<times> string list) list" where
  "CLIENTS =
     [(''virtual_tryon'', [''https://7395458a587bc50ec3.gradio.live/'', ''https://virtual-try-on.hf.space/'']),
      (''chatbot'', [''https://fe81ff40040ecfff3c.gradio.live/'', ''https://fashion-chatbot.hf.space/'']),
      (''text_to_dress'', [''dhaan-ish/text-to-cloth'']),
      (''occasion'', [''https://8c8e6f96c1fe2aefb7.gradio.live/'', ''https://fashion-occasion.hf.space/''])]"

text \<open>
  The inner \<^verbatim>\<open>for url in config["urls"]\<close> loop with its \<^verbatim>\<open>break\<close>. A client
  object is true in \<^verbatim>\<open>if client\<close>; only \<^verbatim>\<open>None\<close> is not.
\<close>

fun try_urls :: "net \<Rightarrow> string list \<Rightarrow> event list \<Rightarrow> client option \<times> event list" where
  "try_urls nt [] h = (None, h)"
| "try_urls nt (url # urls) h =
     (case initialize_gradio_client nt url 3 h of
        (Some c, h') \<Rightarrow> (Some c, h')
      | (None, h') \<Rightarrow> try_urls nt urls h')"

text \<open>The outer loop over the configuration, filling the registry \<^verbatim>\<open>clients\<close>.\<close>

fun init_clients :: "net \<Rightarrow> (string \<times> string list) list \<Rightarrow> (string \<rightharpoonup> client) \<times> event list
    \<Rightarrow> (string \<rightharpoonup> client) \<times> event list" where
  "init_clients nt [] st = st"
| "init_clients nt ((service_name, urls) # rest) (cl, h) =
     (case try_urls nt urls h of
        (Some c, h') \<Rightarrow> init_clients nt rest (cl(service_name \<mapsto> c), h')
      | (None, h') \<Rightarrow> init_clients nt rest (cl, h'))"

definition startup :: "net \<Rightarrow> (string \<times> string list) list \<Rightarrow> (string \<rightharpoonup> client) \<times> event list" where
  "startup nt cfg = init_clients nt cfg (Map.empty, [])"

text \<open>The events one candidate costs when all three attempts fail.\<close>

definition block :: "string \<Rightarrow> event list" where
  "block url = [Connect url, Sleep 2, Connect url, Sleep 2, Connect url]"

section \<open>Python values and builtins the handlers use\<close>

definition type_name :: "json \<Rightarrow> string" where
  "type_name v =
     (case v of JNull \<Rightarrow> ''NoneType'' | JBool _ \<Rightarrow> ''bool'' | JInt _ \<Rightarrow> ''int''
      | JStr _ \<Rightarrow> ''str'' | JList _ \<Rightarrow> ''list'' | JDict _ \<Rightarrow> ''dict'')"

text \<open>Truth value of a parsed JSON value, as \<^verbatim>\<open>not v\<close> tests it.\<close>

definition truthy :: "json \<Rightarrow> bool" where
  "truthy v =
     (case v of JNull \<Rightarrow> False | JBool b \<Rightarrow> b | JInt i \<Rightarrow> i \<noteq> 0
      | JStr s \<Rightarrow> s \<noteq> [] | JList xs \<Rightarrow> xs \<noteq> [] | JDict kvs \<Rightarrow> kvs \<noteq> [])"

definition quote :: char where
  "quote = CHR 0x27"

text \<open>
  \<^verbatim>\<open>data[key]\<close>. A dictionary is the list of its items, keys distinct. The message
  of the \<^verbatim>\<open>KeyError\<close> is the key between single quotes, which is its
  \<^verbatim>\<open>repr\<close> for a key of plain letters, as \<^verbatim>\<open>text\<close> is.
\<close>

definition py_getitem :: "json \<Rightarrow> string \<Rightarrow> exn + json" where
  "py_getitem d key =
     (case d of
        JDict kvs \<Rightarrow>
          (case map_of kvs key of
             Some v \<Rightarrow> Inr v
           | None \<Rightarrow> Inl (PyExn ''KeyError'' ([quote] @ key @ [quote])))
      | JList _ \<Rightarrow> Inl (PyExn ''TypeError'' ''list indices must be integers or slices, not str'')
      | JStr _ \<Rightarrow> Inl (PyExn ''TypeError'' (''string indices must be integers, not '' @ [quote] @ ''str'' @ [quote]))
      | _ \<Rightarrow> Inl (PyExn ''TypeError'' ([quote] @ type_name d @ [quote] @ '' object is not subscriptable'')))"

definition no_attribute :: "json \<Rightarrow> string \<Rightarrow> exn" where
  "no_attribute v a =
     PyExn ''AttributeError'' ([quote] @ type_name v @ [quote] @ '' object has no attribute '' @ [quote] @ a @ [quote])"

text \<open>\<^verbatim>\<open>data.get(key)\<close>: \<^verbatim>\<open>None\<close> for a missing key.\<close>

definition py_get :: "json \<Rightarrow> string \<Rightarrow> exn + json" where
  "py_get d key =
     (case d of
        JDict kvs \<Rightarrow> (case map_of kvs key of Some v \<Rightarrow> Inr v | None \<Rightarrow> Inr JNull)
      | _ \<Rightarrow> Inl (no_attribute d ''get''))"

text \<open>\<^verbatim>\<open>s.split(c)\<close> for a one-character separator: every occurrence cuts, nothing is dropped.\<close>

fun split :: "char \<Rightarrow> string \<Rightarrow> string list" where
  "split c [] = [[]]"
| "split c (x # xs) =
     (if x = c then [] # split c xs
      else (case split c xs of w # ws \<Rightarrow> (x # w) # ws | [] \<Rightarrow> [[x]]))"

definition py_split :: "json \<Rightarrow> exn + json" where
  "py_split result =
     (case result of
        JStr s \<Rightarrow> Inr (JList (map JStr (split CHR '','' s)))
      | _ \<Rightarrow> Inl (no_attribute result ''split''))"

text \<open>\<^verbatim>\<open>str.isspace\<close> on one character below 256, and \<^verbatim>\<open>s.strip()\<close>.\<close>

definition isspace :: "char \<Rightarrow> bool" where
  "isspace c = ((of_char c :: nat) \<in> {9, 10, 11, 12, 13, 28, 29, 30, 31, 32, 133, 160})"

definition strip :: "string \<Rightarrow> string" where
  "strip s = rev (dropWhile isspace (rev (dropWhile isspace s)))"

definition digit :: "nat \<Rightarrow> char" where
  "digit n = ''0123456789'' ! n"

fun str_nat :: "nat \<Rightarrow> string" where
  "str_nat n = (if n < 10 then [digit n] else str_nat (n div 10) @ [digit (n mod 10)])"

declare str_nat.simps [simp del]

text \<open>
  \<^verbatim>\<open>str(v)\<close>, as an f-string applies it. The text of a list or a dictionary is
  Python's \<^verbatim>\<open>repr\<close>, taken as the parameter \<open>rp\<close>.
\<close>

definition py_str :: "(json \<Rightarrow> string) \<Rightarrow> json \<Rightarrow> string" where
  "py_str rp v =
     (case v of
        JNull \<Rightarrow> ''None''
      | JBool b \<Rightarrow> (if b then ''True'' else ''False'')
      | JInt i \<Rightarrow> (if i < 0 then ''-'' @ str_nat (nat (- i)) else str_nat (nat i))
      | JStr s \<Rightarrow> s
      | _ \<Rightarrow> rp v)"

section \<open>Result publishing and download staging\<close>

record datetime =
  year :: nat
  month :: nat
  day :: nat
  hour :: nat
  minute :: nat
  second :: nat
  microsecond :: nat

text \<open>The ranges of the fields of a \<^verbatim>\<open>datetime\<close> whose year has four digits.\<close>

definition valid_datetime :: "datetime \<Rightarrow> bool" where
  "valid_datetime d \<longleftrightarrow>
     1000 \<le> year d \<and> year d \<le> 9999 \<and> 1 \<le> month d \<and> month d \<le> 12 \<and> 1 \<le> day d \<and> day d \<le> 31 \<and>
     hour d \<le> 23 \<and> minute d \<le> 59 \<and> second d \<le> 59 \<and> microsecond d \<le> 999999"

definition pad2 :: "nat \<Rightarrow> string" where
  "pad2 n = [digit (n div 10 mod 10), digit (n mod 10)]"

definition pad4 :: "nat \<Rightarrow> string" where
  "pad4 n = [digit (n div 1000 mod 10), digit (n div 100 mod 10), digit (n div 10 mod 10), digit (n mod 10)]"

text \<open>\<^verbatim>\<open>d.strftime("%Y%m%d_%H%M%S")\<close>.\<close>

definition strftime :: "datetime \<Rightarrow> string" where
  "strftime d = pad4 (year d) @ pad2 (month d) @ pad2 (day d) @ ''_'' @ pad2 (hour d) @ pad2 (minute d) @ pad2 (second d)"

text \<open>The argument \<open>now\<close> is what \<^verbatim>\<open>datetime.now()\<close> returns at the call.\<close>

definition generate_unique_filename :: "datetime \<Rightarrow> string \<Rightarrow> string" where
  "generate_unique_filename now original_name = strftime now @ ''_'' @ original_name"

text \<open>
  An HTTP response opened with \<^verbatim>\<open>stream=True\<close>: its status, and what
  \<^verbatim>\<open>iter_content(chunk_size)\<close> does when it is run to its end, namely the pieces it
  hands over, in order, and the exception that ends the stream after them, if one does.
\<close>

record http_response =
  status_code :: int
  iter_content :: "nat \<Rightarrow> string list \<times> raised option"

record upload =
  filename :: string
  payload :: string

record request =
  json_body :: "exn + json"
  files :: "string \<rightharpoonup> upload"
  form :: "string \<rightharpoonup> string"

record response =
  status :: int
  body :: json

text \<open>
  The environment of a request. A file operation says whether it raises: opening a path
  for writing, the \<open>i\<close>-th write of bytes to it, closing it, saving an upload under it.
\<close>

record env =
  clients :: "string \<rightharpoonup> client"
  http_get :: "string \<Rightarrow> raised + http_response"
  remote :: "client \<Rightarrow> arg list \<Rightarrow> raised + json"
  shutil_copy :: "json \<Rightarrow> string \<Rightarrow> raised option"
  file_open :: "string \<Rightarrow> raised option"
  file_write :: "string \<Rightarrow> nat \<Rightarrow> string \<Rightarrow> raised option"
  file_close :: "string \<Rightarrow> raised option"
  file_save :: "string \<Rightarrow> string \<Rightarrow> raised option"
  clock :: datetime
  path_exists :: "string \<Rightarrow> bool"
  repr :: "json \<Rightarrow> string"

text \<open>\<^verbatim>\<open>safe_copy\<close>: its \<^verbatim>\<open>except Exception\<close> clause answers \<^verbatim>\<open>False\<close>.\<close>

definition safe_copy :: "env \<Rightarrow> json \<Rightarrow> string \<Rightarrow> bool comp" where
  "safe_copy ev src dst =
     (case shutil_copy ev src dst of
        None \<Rightarrow> (Inr True, [CopyFile src dst])
      | Some (Exception e) \<Rightarrow> (Inr False, [CopyFile src dst])
      | Some (BaseException c m) \<Rightarrow> (Inl (BaseException c m), [CopyFile src dst]))"

text \<open>
  The \<^verbatim>\<open>for chunk in ...: file.write(chunk)\<close> loop over the pieces still to come,
  \<open>i\<close> writes having been made: the first write that raises ends it.
\<close>

fun write_pieces :: "env \<Rightarrow> string \<Rightarrow> nat \<Rightarrow> string list \<Rightarrow> raised option \<times> event list" where
  "write_pieces ev file_path i [] = (None, [])"
| "write_pieces ev file_path i (chunk # rest) =
     (case file_write ev file_path i chunk of
        Some x \<Rightarrow> (Some x, [FileWrite file_path chunk])
      | None \<Rightarrow>
          (case write_pieces ev file_path (Suc i) rest of
             (r, evs) \<Rightarrow> (r, FileWrite file_path chunk # evs)))"

text \<open>
  The \<^verbatim>\<open>with open(file_path, 'wb') as file\<close> block once the file is open: the loop,
  then the end of the stream, then the close that leaving the block performs. What the
  close raises replaces what the block raised.
\<close>

definition with_file :: "env \<Rightarrow> string \<Rightarrow> http_response \<Rightarrow> unit comp" where
  "with_file ev file_path r =
     (case iter_content r 128 of
        (pieces, stream_end) \<Rightarrow>
          (case write_pieces ev file_path 0 pieces of
             (write_raised, evs) \<Rightarrow>
               (case file_close ev file_path of
                  Some x \<Rightarrow> (Inl x, evs @ [FileClose file_path])
                | None \<Rightarrow>
                    (case write_raised of
                       Some x \<Rightarrow> (Inl x, evs @ [FileClose file_path])
                     | None \<Rightarrow>
                         (case stream_end of
                            Some x \<Rightarrow> (Inl x, evs @ [FileClose file_path])
                          | None \<Rightarrow> (Inr (), evs @ [FileClose file_path]))))))"

text \<open>The \<^verbatim>\<open>try\<close> block of \<^verbatim>\<open>download_image\<close>.\<close>

definition download_image_try :: "env \<Rightarrow> string \<Rightarrow> string option comp" where
  "download_image_try ev image_url0 =
     (let image_url = strip image_url0;
          file_path = joinpath UPLOADS_DIR ''downloaded_image.png''
      in case http_get ev image_url of
           Inl x \<Rightarrow> (Inl x, [HttpGet image_url])
         | Inr r \<Rightarrow>
             if status_code r = 200 then
               (case file_open ev file_path of
                  Some x \<Rightarrow> (Inl x, [HttpGet image_url, FileOpen file_path])
                | None \<Rightarrow>
                    (case with_file ev file_path r of
                       (Inl x, evs) \<Rightarrow> (Inl x, [HttpGet image_url, FileOpen file_path] @ evs)
                     | (Inr u, evs) \<Rightarrow> (Inr (Some file_path), [HttpGet image_url, FileOpen file_path] @ evs)))
             else (Inr None, [HttpGet image_url]))"

text \<open>
  \<^verbatim>\<open>download_image\<close>: the \<^verbatim>\<open>except Exception\<close> clause turns an
  \<^verbatim>\<open>Exception\<close> into \<^verbatim>\<open>None\<close>.
\<close>

definition download_image :: "env \<Rightarrow> string \<Rightarrow> string option comp" where
  "download_image ev image_url =
     (case download_image_try ev image_url of
        (Inl (Exception e), evs) \<Rightarrow> (Inr None, evs)
      | (Inl (BaseException c m), evs) \<Rightarrow> (Inl (BaseException c m), evs)
      | (Inr r, evs) \<Rightarrow> (Inr r, evs))"

section \<open>Routes\<close>

definition jsonify :: "int \<Rightarrow> (string \<times> json) list \<Rightarrow> response" where
  "jsonify code items = \<lparr>status = code, body = JDict items\<rparr>"

definition call_remote :: "env \<Rightarrow> client \<Rightarrow> arg list \<Rightarrow> json comp" where
  "call_remote ev c args = (remote ev c args, [RemoteCall c args])"

text \<open>\<^verbatim>\<open>uploaded_file.save(upload_path)\<close>.\<close>

definition save_upload :: "env \<Rightarrow> string \<Rightarrow> string \<Rightarrow> unit comp" where
  "save_upload ev upload_path bytes =
     (case file_save ev upload_path bytes of
        None \<Rightarrow> (Inr (), [SaveUpload upload_path bytes])
      | Some x \<Rightarrow> (Inl x, [SaveUpload upload_path bytes]))"

text \<open>
  The \<^verbatim>\<open>except Exception as e\<close> clause every POST route ends with. What is not an
  \<^verbatim>\<open>Exception\<close> leaves the handler.
\<close>

definition catch_route :: "response comp \<Rightarrow> response comp" where
  "catch_route m =
     (case m of
        (Inl (Exception e), evs) \<Rightarrow> (Inr (jsonify 500 [(''error'', JStr (exn_msg e))]), evs)
      | (Inl (BaseException c m), evs) \<Rightarrow> (Inl (BaseException c m), evs)
      | (Inr r, evs) \<Rightarrow> (Inr r, evs))"

text \<open>\<^verbatim>\<open>GET /health\<close>, over the configuration \<open>cfg\<close> (the keys of \<^verbatim>\<open>CLIENTS\<close>).\<close>

definition health_check :: "(string \<times> string list) list \<Rightarrow> env \<Rightarrow> response" where
  "health_check cfg ev =
     jsonify 200
       [(''status'', JStr ''healthy''),
        (''directories'', JDict [(''public'', JStr PUBLIC_DIR), (''uploads'', JStr UPLOADS_DIR)]),
        (''directories_exist'',
           JDict [(''public'', JBool (path_exists ev PUBLIC_DIR)), (''uploads'', JBool (path_exists ev UPLOADS_DIR))]),
        (''services'',
           JDict (map (\<lambda>name. (name, JStr (if name \<in> dom (clients ev) then ''available'' else ''unavailable'')))
                    (map fst cfg)))]"

text \<open>\<^verbatim>\<open>POST /predict\<close>.\<close>

definition predict_try :: "env \<Rightarrow> request \<Rightarrow> response comp" where
  "predict_try ev req =
     (case clients ev ''chatbot'' of
        None \<Rightarrow> ret (jsonify 503 [(''error'', JStr ''Chatbot service not available'')])
      | Some cl \<Rightarrow>
          bind (lift (json_body req)) (\<lambda>data.
          bind (lift (py_getitem data ''text'')) (\<lambda>text_input.
          bind (call_remote ev cl [Val text_input]) (\<lambda>result.
          ret (jsonify 200 [(''result'', result)])))))"

definition predict :: "env \<Rightarrow> request \<Rightarrow> response comp" where
  "predict ev req = catch_route (predict_try ev req)"

definition bad_request_key :: exn where
  "bad_request_key =
     PyExn ''BadRequestKeyError''
       ''400 Bad Request: The browser (or proxy) sent a request that this server could not understand.''"

text \<open>\<^verbatim>\<open>POST /uploadocassion\<close>.\<close>

definition upload_ocassion_try :: "env \<Rightarrow> request \<Rightarrow> response comp" where
  "upload_ocassion_try ev req =
     (case clients ev ''virtual_tryon'' of
        None \<Rightarrow> ret (jsonify 503 [(''error'', JStr ''Virtual try-on service not available'')])
      | Some cl \<Rightarrow>
          (case files req ''uploadedFile'' of
             None \<Rightarrow> ret (jsonify 400 [(''error'', JStr ''No file part'')])
           | Some uploaded_file \<Rightarrow>
               bind (lift (case form req ''url'' of None \<Rightarrow> Inl bad_request_key | Some u \<Rightarrow> Inr u)) (\<lambda>url.
               bind (download_image ev url) (\<lambda>downloaded.
               (case downloaded of
                  None \<Rightarrow> ret (jsonify 500 [(''error'', JStr ''Failed to download image'')])
                | Some downloaded_path \<Rightarrow>
                    if filename uploaded_file = [] then ret (jsonify 400 [(''error'', JStr ''No selected file'')])
                    else
                      (let upload_path = joinpath UPLOADS_DIR ''upload.png'' in
                       bind (save_upload ev upload_path (payload uploaded_file)) (\<lambda>_.
                       bind (call_remote ev cl [File downloaded_path, File upload_path]) (\<lambda>result.
                       (let result_filename = generate_unique_filename (clock ev) ''result.png'';
                            destination = joinpath PUBLIC_DIR result_filename
                        in bind (safe_copy ev result destination) (\<lambda>copied.
                           if copied then
                             ret (jsonify 200 [(''message'', JStr ''Result image copied successfully.''),
                                               (''filename'', JStr result_filename)])
                           else ret (jsonify 500 [(''error'', JStr ''Failed to save result image'')])))))))))))"

definition upload_ocassion :: "env \<Rightarrow> request \<Rightarrow> response comp" where
  "upload_ocassion ev req = catch_route (upload_ocassion_try ev req)"

text \<open>\<^verbatim>\<open>POST /upload\<close>.\<close>

definition upload_files_try :: "env \<Rightarrow> request \<Rightarrow> response comp" where
  "upload_files_try ev req =
     (case clients ev ''virtual_tryon'' of
        None \<Rightarrow> ret (jsonify 503 [(''error'', JStr ''Virtual try-on service not available'')])
      | Some cl \<Rightarrow>
          (case files req ''uploadedFile'' of
             None \<Rightarrow> ret (jsonify 400 [(''error'', JStr ''No file part'')])
           | Some uploaded_file \<Rightarrow>
               if filename uploaded_file = [] then ret (jsonify 400 [(''error'', JStr ''No selected file'')])
               else
                 (let upload_path = joinpath UPLOADS_DIR ''upload.png'' in
                  bind (save_upload ev upload_path (payload uploaded_file)) (\<lambda>_.
                  bind (call_remote ev cl [File (joinpath PUBLIC_DIR ''image.JPEG''), File upload_path]) (\<lambda>result.
                  (let result_filename = generate_unique_filename (clock ev) ''result.png'';
                       destination = joinpath PUBLIC_DIR result_filename
                   in bind (safe_copy ev result destination) (\<lambda>copied.
                      if copied then
                        ret (jsonify 200 [(''message'', JStr ''Result image copied successfully.''),
                                          (''filename'', JStr result_filename)])
                      else ret (jsonify 500 [(''error'', JStr ''Failed to save result image'')]))))))))"

definition upload_files :: "env \<Rightarrow> request \<Rightarrow> response comp" where
  "upload_files ev req = catch_route (upload_files_try ev req)"

text \<open>\<^verbatim>\<open>POST /handleprompt\<close>.\<close>

definition handle_prompt_try :: "env \<Rightarrow> request \<Rightarrow> response comp" where
  "handle_prompt_try ev req =
     (case clients ev ''text_to_dress'' of
        None \<Rightarrow> ret (jsonify 503 [(''error'', JStr ''Text-to-dress service not available'')])
      | Some cl \<Rightarrow>
          bind (lift (json_body req)) (\<lambda>data.
          bind (lift (py_get data ''prompt'')) (\<lambda>prompt.
          if \<not> truthy prompt then ret (jsonify 400 [(''error'', JStr ''No prompt provided'')])
          else
            bind (call_remote ev cl [Val prompt]) (\<lambda>result.
            (let result_filename = generate_unique_filename (clock ev) ''generated_dress.png'';
                 destination = joinpath PUBLIC_DIR result_filename
             in bind (safe_copy ev result destination) (\<lambda>copied.
                if copied then
                  ret (jsonify 200 [(''message'', JStr ''Success''), (''filename'', JStr result_filename)])
                else ret (jsonify 500 [(''error'', JStr ''Failed to save generated image'')])))))))"

definition handle_prompt :: "env \<Rightarrow> request \<Rightarrow> response comp" where
  "handle_prompt ev req = catch_route (handle_prompt_try ev req)"

text \<open>\<^verbatim>\<open>POST /handleocassion\<close>.\<close>

definition handleocassion_try :: "env \<Rightarrow> request \<Rightarrow> response comp" where
  "handleocassion_try ev req =
     (case clients ev ''occasion'' of
        None \<Rightarrow> ret (jsonify 503 [(''error'', JStr ''Occasion service not available'')])
      | Some cl \<Rightarrow>
          bind (lift (json_body req)) (\<lambda>data.
          bind (lift (py_get data ''color'')) (\<lambda>color.
          bind (lift (py_get data ''selectedOccasion'')) (\<lambda>selected_occasion.
          if \<not> truthy color \<or> \<not> truthy selected_occasion then
            ret (jsonify 400 [(''error'', JStr ''Color and occasion are required'')])
          else
            bind (call_remote ev cl
                    [Val (JStr (py_str (repr ev) color @ '' shirt for '' @ py_str (repr ev) selected_occasion))]) (\<lambda>result.
            bind (lift (py_split result)) (\<lambda>new_items.
            ret (jsonify 200 [(''newItems'', new_items), (''showRecommendations'', JBool True)])))))))"

definition handleocassion :: "env \<Rightarrow> request \<Rightarrow> response comp" where
  "handleocassion ev req = catch_route (handleocassion_try ev req)"

text \<open>The routing table.\<close>

datatype route =
    GET_health
  | POST_predict
  | POST_uploadocassion
  | POST_upload
  | POST_handleprompt
  | POST_handleocassion

definition capability :: "route \<Rightarrow> string option" where
  "capability r =
     (case r of
        GET_health \<Rightarrow> None
      | POST_predict \<Rightarrow> Some ''chatbot''
      | POST_uploadocassion \<Rightarrow> Some ''virtual_tryon''
      | POST_upload \<Rightarrow> Some ''virtual_tryon''
      | POST_handleprompt \<Rightarrow> Some ''text_to_dress''
      | POST_handleocassion \<Rightarrow> Some ''occasion'')"


text \<open>What the handler of a route gives back to the framework.\<close>

definition handle :: "(string \<times> string list) list \<Rightarrow> env \<Rightarrow> route \<Rightarrow> request \<Rightarrow> response comp" where
  "handle cfg ev r req =
     (case r of
        GET_health \<Rightarrow> ret (health_check cfg ev)
      | POST_predict \<Rightarrow> predict ev req
      | POST_uploadocassion \<Rightarrow> upload_ocassion ev req
      | POST_upload \<Rightarrow> upload_files ev req
      | POST_handleprompt \<Rightarrow> handle_prompt ev req
      | POST_handleocassion \<Rightarrow> handleocassion ev req)"

text \<open>\<^verbatim>\<open>sep.join(parts)\<close>, the inverse that \<^verbatim>\<open>split\<close> is measured against.\<close>

fun join :: "string \<Rightarrow> string list \<Rightarrow> string" where
  "join sp [] = []"
| "join sp [x] = x"
| "join sp (x # y # ys) = x @ sp @ join sp (y # ys)"

text \<open>An environment and a request for concrete runs.\<close>

definition example_env :: env where
  "example_env =
     \<lparr>clients = Map.empty,
      http_get = (\<lambda>u. Inl (Exception (PyExn ''ConnectionError'' ''unreachable''))),
      remote = (\<lambda>c args. Inl (Exception (PyExn ''ValueError'' ''remote failure''))),
      shutil_copy = (\<lambda>src dst. None),
      file_open = (\<lambda>p. None),
      file_write = (\<lambda>p i bytes. None),
      file_close = (\<lambda>p. None),
      file_save = (\<lambda>p bytes. None),
      clock = \<lparr>year = 2024, month = 1, day = 2, hour = 3, minute = 4, second = 5, microsecond = 0\<rparr>,
      path_exists = (\<lambda>p. True),
      repr = (\<lambda>v. [])\<rparr>"

text \<open>A server that answers every GET with status 200 and a body that comes in two pieces.\<close>

definition example_stream :: http_response where
  "example_stream = \<lparr>status_code = 200, iter_content = (\<lambda>n. ([''abc'', ''de''], None))\<rparr>"

definition serving_env :: env where
  "serving_env = example_env\<lparr>http_get := (\<lambda>u. Inr example_stream)\<rparr>"

text \<open>The same, with an uploads directory that cannot be written.\<close>

definition readonly_env :: env where
  "readonly_env =
     serving_env\<lparr>file_open := (\<lambda>p. Some (Exception (PyExn ''PermissionError'' ''[Errno 13] Permission denied'')))\<rparr>"


definition example_request :: request where
  "example_request = \<lparr>json_body = Inr (JDict []), files = Map.empty, form = Map.empty\<rparr>"

text \<open>The requests a route turns down for a missing or empty required field.\<close>

definition bad_request_case :: "route \<Rightarrow> request \<Rightarrow> bool" where
  "bad_request_case r req =
     (case r of
        POST_upload \<Rightarrow> (case files req ''uploadedFile'' of None \<Rightarrow> True | Some f \<Rightarrow> filename f = [])
      | POST_uploadocassion \<Rightarrow> files req ''uploadedFile'' = None
      | POST_handleprompt \<Rightarrow>
          (case json_body req of
             Inr (JDict kvs) \<Rightarrow> (case map_of kvs ''prompt'' of None \<Rightarrow> True | Some v \<Rightarrow> \<not> truthy v)
           | _ \<Rightarrow> False)
      | POST_handleocassion \<Rightarrow>
          (case json_body req of
             Inr (JDict kvs) \<Rightarrow>
               (case map_of kvs ''color'' of None \<Rightarrow> True | Some v \<Rightarrow> \<not> truthy v) \<or>
               (case map_of kvs ''selectedOccasion'' of None \<Rightarrow> True | Some v \<Rightarrow> \<not> truthy v)
           | _ \<Rightarrow> False)
      | _ \<Rightarrow> False)"

section \<open>Properties of the endpoint resolver\<close>


lemma range3: "[0..(2::int)] = [0, 1, 2]"
  by (simp add: upto_rec1)

lemma init3:
  "initialize_gradio_client nt url 3 h =
     (case nt h url of None \<Rightarrow> (Some (Client url), h @ [Connect url])
      | Some e1 \<Rightarrow>
        (case nt (h @ [Connect url, Sleep 2]) url of
           None \<Rightarrow> (Some (Client url), h @ [Connect url, Sleep 2, Connect url])
         | Some e2 \<Rightarrow>
           (case nt (h @ [Connect url, Sleep 2, Connect url, Sleep 2]) url of
              None \<Rightarrow> (Some (Client url), h @ block url)
            | Some e3 \<Rightarrow> (None, h @ block url))))"
  by (simp add: initialize_gradio_client_def range3 block_def split: option.splits)








lemma init_clients_other:
  "name \<notin> fst ` set cfg \<Longrightarrow> fst (init_clients nt cfg (cl, h)) name = cl name"
  by (induction cfg arbitrary: cl h) (auto split: prod.splits option.splits)

lemma init_clients_empty_urls:
  "distinct (map fst cfg) \<Longrightarrow> (name, []) \<in> set cfg \<Longrightarrow> cl name = None \<Longrightarrow>
   fst (init_clients nt cfg (cl, h)) name = None"
proof (induction cfg arbitrary: cl h)
  case Nil
  then show ?case by simp
next
  case (Cons a cfg)
  obtain n us where a: "a = (n, us)" by (cases a)
  show ?case
  proof (cases "a = (name, [])")
    case True
    with Cons.prems have "name \<notin> fst ` set cfg" by auto
    with True Cons.prems show ?thesis by (simp add: init_clients_other)
  next
    case False
    with Cons.prems a have "(name, []) \<in> set cfg" "n \<noteq> name" "distinct (map fst cfg)" by force+
    with Cons.IH Cons.prems(3) a show ?thesis
      by (auto split: prod.splits option.splits)
  qed
qed

text \<open>
  Claim C4. A capability with an empty candidate list costs no construction attempt (no
  event at all) and leaves the registry as it was; after the whole startup pass over a
  configuration with distinct capability names it is unbound.
\<close>

theorem empty_candidate_list_unavailable:
  "try_urls nt [] h = (None, h) \<and>
   init_clients nt [(name, [])] (cl, h) = (cl, h) \<and>
   (distinct (map fst cfg) \<and> (name, []) \<in> set cfg \<longrightarrow> name \<notin> dom (fst (startup nt cfg)))"
  using init_clients_empty_urls[of cfg name Map.empty nt "[]"]
  by (auto simp: startup_def)

theorem empty_candidate_list_unavailable_witness:
  "distinct (map fst [(''chatbot'', [''one'']), (''occasion'', [])]) \<and>
   (''occasion'', []) \<in> set [(''chatbot'', [''one'']), (''occasion'', [])] \<and>
   ''occasion'' \<notin> dom (fst (startup (\<lambda>h u. None) [(''chatbot'', [''one'']), (''occasion'', [])]))"
  using empty_candidate_list_unavailable[of "\<lambda>h u. None" "[]" "''occasion''" Map.empty "[(''chatbot'', [''one'']), (''occasion'', [])]"]
  by simp

section \<open>Properties of result publishing\<close>

lemma digit_eq_iff: "a < 10 \<Longrightarrow> b < 10 \<Longrightarrow> digit a = digit b \<longleftrightarrow> a = b"
  unfolding digit_def by (subst nth_eq_iff_index_eq) simp_all

lemma digit_in_digits: "a < 10 \<Longrightarrow> digit a \<in> set ''0123456789''"
  unfolding digit_def by (rule nth_mem) simp

lemma two_digits: "n div 10 = m div 10 \<Longrightarrow> n mod 10 = m mod 10 \<Longrightarrow> n = (m::nat)"
  by (metis div_mult_mod_eq)

lemma pad2_eq_iff: "n < 100 \<Longrightarrow> m < 100 \<Longrightarrow> pad2 n = pad2 m \<longleftrightarrow> n = m"
proof
  assume n: "n < 100" and m: "m < 100" and e: "pad2 n = pad2 m"
  have lt: "n div 10 < 10" "m div 10 < 10" using n m by simp_all
  then have [simp]: "n div 10 mod 10 = n div 10" "m div 10 mod 10 = m div 10" by simp_all
  from e lt have "n div 10 = m div 10" "n mod 10 = m mod 10"
    by (simp_all add: pad2_def digit_eq_iff)
  then show "n = m" by (rule two_digits)
qed simp


lemma pad4_eq_iff: "n < 10000 \<Longrightarrow> m < 10000 \<Longrightarrow> pad4 n = pad4 m \<longleftrightarrow> n = m"
proof
  assume n: "n < 10000" and m: "m < 10000" and e: "pad4 n = pad4 m"
  have lt: "n div 1000 < 10" "m div 1000 < 10" using n m by simp_all
  then have [simp]: "n div 1000 mod 10 = n div 1000" "m div 1000 mod 10 = m div 1000" by simp_all
  from e lt have d: "n div 1000 = m div 1000" "n div 100 mod 10 = m div 100 mod 10"
      "n div 10 mod 10 = m div 10 mod 10" "n mod 10 = m mod 10"
    by (simp_all add: pad4_def digit_eq_iff)
  have "n div 100 div 10 = m div 100 div 10" using d(1) by (simp add: div_mult2_eq[symmetric])
  then have h: "n div 100 = m div 100" using d(2) by (rule two_digits)
  have "n div 10 div 10 = m div 10 div 10" using h by (simp add: div_mult2_eq[symmetric])
  then have "n div 10 = m div 10" using d(3) by (rule two_digits)
  then show "n = m" using d(4) by (rule two_digits)
qed simp

lemma length_pad: "length (pad2 n) = 2" "length (pad4 n) = 4"
  by (simp_all add: pad2_def pad4_def)

lemma strftime_eq_iff:
  assumes "valid_datetime d1" "valid_datetime d2"
  shows "strftime d1 = strftime d2 \<longleftrightarrow>
    year d1 = year d2 \<and> month d1 = month d2 \<and> day d1 = day d2 \<and>
    hour d1 = hour d2 \<and> minute d1 = minute d2 \<and> second d1 = second d2"
proof -
  from assms have b: "year d1 < 10000" "year d2 < 10000" "month d1 < 100" "month d2 < 100"
    "day d1 < 100" "day d2 < 100" "hour d1 < 100" "hour d2 < 100" "minute d1 < 100" "minute d2 < 100"
    "second d1 < 100" "second d2 < 100"
    by (simp_all add: valid_datetime_def)
  show ?thesis
    unfolding strftime_def
    by (simp add: pad2_eq_iff pad4_eq_iff b length_pad)
qed

lemma strftime_shape:
  "length (strftime d) = 15 \<and> strftime d ! 8 = CHR ''_'' \<and>
   (\<forall>i < 15. i \<noteq> 8 \<longrightarrow> strftime d ! i \<in> set ''0123456789'')"
proof -
  have l: "length (strftime d) = 15" by (simp add: strftime_def length_pad)
  have u: "strftime d ! 8 = CHR ''_''" by (simp add: strftime_def pad2_def pad4_def)
  have "strftime d ! i \<in> set ''0123456789''" if "i < 15" "i \<noteq> 8" for i
  proof -
    from that have "i \<in> {0, 1, 2, 3, 4, 5, 6, 7, 9, 10, 11, 12, 13, 14}" by simp arith
    then show ?thesis
      unfolding strftime_def pad2_def pad4_def
      by (auto simp del: set_simps intro!: digit_in_digits)
  qed
  with l u show ?thesis by blast
qed


text \<open>
  Claim C5. Two calls of the filename generator for the same logical name, at valid times
  whose timestamps differ in some field down to the second, give different filenames and
  so different destinations in the public directory. Each filename is the timestamp, an
  underscore and the logical name; the timestamp is eight digits, an underscore and six
  digits.
\<close>

theorem unique_filename_for_distinct_timestamps:
  assumes "valid_datetime t1" and "valid_datetime t2"
    and "(year t1, month t1, day t1, hour t1, minute t1, second t1) \<noteq>
         (year t2, month t2, day t2, hour t2, minute t2, second t2)"
  shows "generate_unique_filename t1 name \<noteq> generate_unique_filename t2 name \<and>
         joinpath PUBLIC_DIR (generate_unique_filename t1 name) \<noteq>
           joinpath PUBLIC_DIR (generate_unique_filename t2 name) \<and>
         generate_unique_filename t1 name = strftime t1 @ ''_'' @ name \<and>
         generate_unique_filename t2 name = strftime t2 @ ''_'' @ name \<and>
         length (strftime t1) = 15 \<and> strftime t1 ! 8 = CHR ''_'' \<and>
         (\<forall>i < 15. i \<noteq> 8 \<longrightarrow> strftime t1 ! i \<in> set ''0123456789'')"
proof -
  from assms have "strftime t1 \<noteq> strftime t2"
    by (simp add: strftime_eq_iff)
  then have "generate_unique_filename t1 name \<noteq> generate_unique_filename t2 name"
    by (simp add: generate_unique_filename_def)
  moreover from this have "joinpath PUBLIC_DIR (generate_unique_filename t1 name) \<noteq>
           joinpath PUBLIC_DIR (generate_unique_filename t2 name)"
    by (simp add: joinpath_def)
  moreover have "generate_unique_filename t1 name = strftime t1 @ ''_'' @ name"
     "generate_unique_filename t2 name = strftime t2 @ ''_'' @ name"
    by (simp_all add: generate_unique_filename_def)
  ultimately show ?thesis using strftime_shape[of t1] by blast
qed

theorem unique_filename_for_distinct_timestamps_witness:
  "valid_datetime \<lparr>year = 2024, month = 1, day = 2, hour = 3, minute = 4, second = 5, microsecond = 0\<rparr> \<and>
   valid_datetime \<lparr>year = 2024, month = 1, day = 2, hour = 3, minute = 4, second = 6, microsecond = 0\<rparr> \<and>
   generate_unique_filename
     \<lparr>year = 2024, month = 1, day = 2, hour = 3, minute = 4, second = 5, microsecond = 0\<rparr> ''result.png''
     = ''20240102_030405_result.png'' \<and>
   generate_unique_filename
     \<lparr>year = 2024, month = 1, day = 2, hour = 3, minute = 4, second = 6, microsecond = 0\<rparr> ''result.png''
     = ''20240102_030406_result.png'' \<and>
   generate_unique_filename
     \<lparr>year = 2024, month = 1, day = 2, hour = 3, minute = 4, second = 5, microsecond = 0\<rparr> ''result.png''
     \<noteq> generate_unique_filename
     \<lparr>year = 2024, month = 1, day = 2, hour = 3, minute = 4, second = 6, microsecond = 0\<rparr> ''result.png''"
  using unique_filename_for_distinct_timestamps
    [of "\<lparr>year = 2024, month = 1, day = 2, hour = 3, minute = 4, second = 5, microsecond = 0\<rparr>"
        "\<lparr>year = 2024, month = 1, day = 2, hour = 3, minute = 4, second = 6, microsecond = 0\<rparr>"
        "''result.png''"]
  by (simp add: valid_datetime_def generate_unique_filename_def strftime_def pad2_def pad4_def digit_def)

section \<open>Properties of the occasion route\<close>

lemma split_not_Nil: "split c s \<noteq> []"
  by (induction s) (auto split: list.splits)

lemma join_split: "join [c] (split c s) = s"
proof (induction s)
  case Nil
  then show ?case by simp
next
  case (Cons x xs)
  obtain w ws where w: "split c xs = w # ws"
    using split_not_Nil[of c xs] by (cases "split c xs") auto
  with Cons show ?case by (cases ws) auto
qed

lemma split_no_sep: "seg \<in> set (split c s) \<Longrightarrow> c \<notin> set seg"
  by (induction s arbitrary: seg) (auto split: if_splits list.splits)

lemma length_split: "length (split c s) = Suc (count_list s c)"
  by (induction s) (auto split: list.splits simp: split_not_Nil)

lemma split_snoc_sep: "split c (s @ [c]) = split c s @ [[]]"
  by (induction s) (auto split: list.splits simp: split_not_Nil)

text \<open>
  Claim C6. When the occasion client is bound, the JSON body is an object whose
  \<^verbatim>\<open>color\<close> and \<^verbatim>\<open>selectedOccasion\<close> are non-empty strings and the remote call
  returns a string, the route makes exactly one remote call, with the phrase
  "color shirt for occasion", and answers 200 with the segments of the returned string and
  \<^verbatim>\<open>showRecommendations\<close> true. The segments are cut at every comma and none is
  dropped: joining them with commas gives the string back, no segment holds a comma, there
  is one more segment than commas, and a leading or trailing comma gives an empty segment.
\<close>

theorem handleocassion_splits_on_commas:
  assumes "clients ev ''occasion'' = Some cl"
    and "json_body req = Inr (JDict kvs)"
    and "map_of kvs ''color'' = Some (JStr c)" and "c \<noteq> []"
    and "map_of kvs ''selectedOccasion'' = Some (JStr occ)" and "occ \<noteq> []"
    and "remote ev cl [Val (JStr (c @ '' shirt for '' @ occ))] = Inr (JStr s)"
  shows "handle cfg ev POST_handleocassion req =
           (Inr (jsonify 200 [(''newItems'', JList (map JStr (split CHR '','' s))), (''showRecommendations'', JBool True)]),
            [RemoteCall cl [Val (JStr (c @ '' shirt for '' @ occ))]]) \<and>
         join '','' (split CHR '','' s) = s \<and>
         (\<forall>seg \<in> set (split CHR '','' s). CHR '','' \<notin> set seg) \<and>
         length (split CHR '','' s) = Suc (count_list s CHR '','') \<and>
         split CHR '','' (CHR '','' # s) = [] # split CHR '','' s \<and>
         split CHR '','' (s @ '','') = split CHR '','' s @ [[]] \<and>
         split CHR '','' ''shirt,shoes,tie'' = [''shirt'', ''shoes'', ''tie'']"
proof -
  have "handle cfg ev POST_handleocassion req =
           (Inr (jsonify 200 [(''newItems'', JList (map JStr (split CHR '','' s))), (''showRecommendations'', JBool True)]),
            [RemoteCall cl [Val (JStr (c @ '' shirt for '' @ occ))]])"
    using assms
    by (simp add: handle_def handleocassion_def handleocassion_try_def catch_route_def bind_def lift_def
        ret_def call_remote_def py_get_def truthy_def py_str_def py_split_def)
  moreover have "split CHR '','' ''shirt,shoes,tie'' = [''shirt'', ''shoes'', ''tie'']"
    by simp
  ultimately show ?thesis
    using join_split[of "CHR '',''" s] split_no_sep[of _ "CHR '',''" s] length_split[of "CHR '',''" s]
      split_snoc_sep[of "CHR '',''" s]
    by auto
qed

theorem handleocassion_splits_on_commas_witness:
  "handle CLIENTS
     (example_env\<lparr>clients := [''occasion'' \<mapsto> Client ''https://fashion-occasion.hf.space/''],
                  remote := (\<lambda>c args. Inr (JStr ''shirt,shoes,tie''))\<rparr>)
     POST_handleocassion
     (example_request\<lparr>json_body := Inr (JDict [(''color'', JStr ''red''), (''selectedOccasion'', JStr ''wedding'')])\<rparr>)
   = (Inr (jsonify 200 [(''newItems'', JList [JStr ''shirt'', JStr ''shoes'', JStr ''tie'']), (''showRecommendations'', JBool True)]),
      [RemoteCall (Client ''https://fashion-occasion.hf.space/'') [Val (JStr ''red shirt for wedding'')]])"
  using handleocassion_splits_on_commas
    [of "example_env\<lparr>clients := [''occasion'' \<mapsto> Client ''https://fashion-occasion.hf.space/''],
                  remote := (\<lambda>c args. Inr (JStr ''shirt,shoes,tie''))\<rparr>"
        "Client ''https://fashion-occasion.hf.space/''"
        "example_request\<lparr>json_body := Inr (JDict [(''color'', JStr ''red''), (''selectedOccasion'', JStr ''wedding'')])\<rparr>"
        "[(''color'', JStr ''red''), (''selectedOccasion'', JStr ''wedding'')]"
        "''red''" "''wedding''" "''shirt,shoes,tie''" CLIENTS]
  by (simp add: example_env_def example_request_def)

section \<open>Properties of the health route\<close>

lemma map_of_tabulate:
  "map_of (map (\<lambda>k. (k, f k)) ks) k = (if k \<in> set ks then Some (f k) else None)"
  by (induction ks) auto

text \<open>
  Claim C7. With the registry that the startup pass built, \<^verbatim>\<open>GET /health\<close> answers 200
  and its \<^verbatim>\<open>services\<close> object lists exactly the configured capability names, in
  order, each with \<^verbatim>\<open>available\<close> if and only if the pass bound a client for it and
  with \<^verbatim>\<open>unavailable\<close> if and only if it did not.
\<close>

theorem health_reflects_registry:
  assumes "clients ev = fst (startup nt cfg)"
  shows "\<exists>items svc.
           handle cfg ev GET_health req = (Inr \<lparr>status = 200, body = JDict items\<rparr>, []) \<and>
           map_of items ''services'' = Some (JDict svc) \<and>
           map fst svc = map fst cfg \<and>
           (\<forall>name \<in> fst ` set cfg.
              (map_of svc name = Some (JStr ''available'') \<longleftrightarrow> name \<in> dom (fst (startup nt cfg))) \<and>
              (map_of svc name = Some (JStr ''unavailable'') \<longleftrightarrow> name \<notin> dom (fst (startup nt cfg)))) \<and>
           (\<forall>name. name \<notin> fst ` set cfg \<longrightarrow> map_of svc name = None)"
proof -
  let ?svc = "map (\<lambda>name. (name, JStr (if name \<in> dom (clients ev) then ''available'' else ''unavailable'')))
                    (map fst cfg)"
  have "map fst ?svc = map fst cfg" by (simp add: comp_def)
  moreover have "map_of ?svc name =
      (if name \<in> fst ` set cfg then Some (JStr (if name \<in> dom (clients ev) then ''available'' else ''unavailable''))
       else None)" for name
    using map_of_tabulate[of "\<lambda>name. JStr (if name \<in> dom (clients ev) then ''available'' else ''unavailable'')" "map fst cfg" name]
    by simp
  ultimately show ?thesis
    using assms
    by (intro exI[of _ "[(''status'', JStr ''healthy''),
        (''directories'', JDict [(''public'', JStr PUBLIC_DIR), (''uploads'', JStr UPLOADS_DIR)]),
        (''directories_exist'',
           JDict [(''public'', JBool (path_exists ev PUBLIC_DIR)), (''uploads'', JBool (path_exists ev UPLOADS_DIR))]),
        (''services'', JDict ?svc)]"] exI[of _ ?svc])
       (simp add: handle_def health_check_def jsonify_def ret_def)
qed


theorem health_reflects_registry_witness:
  "fst (startup (\<lambda>h u. if u = ''good'' then None else Some (PyExn ''ConnectionError'' ''down''))
          [(''chatbot'', [''good'']), (''occasion'', [''bad''])]) = [''chatbot'' \<mapsto> Client ''good''] \<and>
   handle [(''chatbot'', [''good'']), (''occasion'', [''bad''])]
     (example_env\<lparr>clients := fst (startup (\<lambda>h u. if u = ''good'' then None else Some (PyExn ''ConnectionError'' ''down''))
          [(''chatbot'', [''good'']), (''occasion'', [''bad''])])\<rparr>)
     GET_health example_request =
   (Inr \<lparr>status = 200, body = JDict
       [(''status'', JStr ''healthy''),
        (''directories'', JDict [(''public'', JStr PUBLIC_DIR), (''uploads'', JStr UPLOADS_DIR)]),
        (''directories_exist'', JDict [(''public'', JBool True), (''uploads'', JBool True)]),
        (''services'', JDict [(''chatbot'', JStr ''available''), (''occasion'', JStr ''unavailable'')])]\<rparr>, [])"
  using health_reflects_registry
    [of "example_env\<lparr>clients := fst (startup (\<lambda>h u. if u = ''good'' then None else Some (PyExn ''ConnectionError'' ''down''))
          [(''chatbot'', [''good'']), (''occasion'', [''bad''])])\<rparr>"
        "\<lambda>h u. if u = ''good'' then None else Some (PyExn ''ConnectionError'' ''down'')"
        "[(''chatbot'', [''good'']), (''occasion'', [''bad''])]" example_request]
  by (simp add: startup_def init3 handle_def health_check_def jsonify_def example_env_def ret_def)

section \<open>Properties of download staging\<close>

lemma strip_drop_left: "(\<forall>c \<in> set a. isspace c) \<Longrightarrow> strip (a @ s) = strip s"
  by (simp add: strip_def)

lemma strip_drop_right: "(\<forall>c \<in> set b. isspace c) \<Longrightarrow> strip (s @ b) = strip s"
proof (cases "\<forall>c \<in> set s. isspace c")
  case True
  assume "\<forall>c \<in> set b. isspace c"
  with True have "dropWhile isspace (s @ b) = []" "dropWhile isspace s = []" by auto
  then show ?thesis by (simp only: strip_def)
next
  case False
  assume b: "\<forall>c \<in> set b. isspace c"
  from False have "dropWhile isspace (s @ b) = dropWhile isspace s @ b"
    by auto
  moreover have "dropWhile isspace (rev b @ rev (dropWhile isspace s)) = dropWhile isspace (rev (dropWhile isspace s))"
    by (rule dropWhile_append2) (use b in auto)
  ultimately show ?thesis by (simp add: strip_def)
qed

lemma strip_surrounding:
  "(\<forall>c \<in> set a. isspace c) \<Longrightarrow> (\<forall>c \<in> set b. isspace c) \<Longrightarrow> strip (a @ s @ b) = strip s"
  by (simp add: strip_drop_left strip_drop_right)

lemma strip_decompose:
  "\<exists>a b. s = a @ strip s @ b \<and> (\<forall>c \<in> set a. isspace c) \<and> (\<forall>c \<in> set b. isspace c)"
proof -
  let ?t = "dropWhile isspace s"
  have s: "s = takeWhile isspace s @ ?t" by simp
  have "rev (takeWhile isspace (rev ?t) @ dropWhile isspace (rev ?t)) = rev (rev ?t)"
    by (simp only: takeWhile_dropWhile_id)
  then have "rev (dropWhile isspace (rev ?t)) @ rev (takeWhile isspace (rev ?t)) = ?t"
    by (simp only: rev_append rev_rev_ident)
  then have t: "?t = strip s @ rev (takeWhile isspace (rev ?t))"
    by (simp only: strip_def)
  have "s = takeWhile isspace s @ strip s @ rev (takeWhile isspace (rev ?t))"
    using s t by (simp only:)
  moreover have "\<forall>c \<in> set (takeWhile isspace s). isspace c" by (auto dest: set_takeWhileD)
  moreover have "\<forall>c \<in> set (rev (takeWhile isspace (rev ?t))). isspace c" by (auto dest: set_takeWhileD)
  ultimately show ?thesis by blast
qed


lemma strip_ends:
  assumes "strip s \<noteq> []"
  shows "\<not> isspace (hd (strip s)) \<and> \<not> isspace (last (strip s))"
proof -
  let ?t = "dropWhile isspace s"
  let ?u = "dropWhile isspace (rev ?t)"
  from assms have u: "?u \<noteq> []" by (simp add: strip_def)
  then have "\<not> isspace (hd ?u)" by (rule hd_dropWhile)
  with u have l: "\<not> isspace (last (strip s))" by (simp add: strip_def last_rev)
  have t: "?t \<noteq> []"
  proof
    assume e: "?t = []"
    have "?u = []" by (simp only: e rev.simps dropWhile.simps)
    with u show False by contradiction
  qed
  then have h: "\<not> isspace (hd ?t)" by (rule hd_dropWhile)
  have "rev (takeWhile isspace (rev ?t) @ ?u) = rev (rev ?t)"
    by (simp only: takeWhile_dropWhile_id)
  then have "strip s @ rev (takeWhile isspace (rev ?t)) = ?t"
    by (simp only: rev_append rev_rev_ident strip_def)
  then have "hd ?t = hd (strip s)" using assms by (metis hd_append2)
  with h l show ?thesis by simp
qed

lemma strip_idem: "strip (strip s) = strip s"
proof (cases "strip s = []")
  case True
  have "strip [] = []" by (simp add: strip_def)
  with True show ?thesis by (simp only:)
next
  case False
  from strip_ends[OF False] have h: "\<not> isspace (hd (strip s))" and l: "\<not> isspace (last (strip s))"
    by simp_all
  from False h have 1: "dropWhile isspace (strip s) = strip s"
    by (cases "strip s") auto
  from False l have "\<not> isspace (hd (rev (strip s)))" by (simp add: hd_rev)
  with False have 2: "dropWhile isspace (rev (strip s)) = rev (strip s)"
    by (cases "rev (strip s)") auto
  show ?thesis
    unfolding strip_def[of "strip s"] by (simp only: 1 2 rev_rev_ident)
qed


lemma write_pieces_step:
  "file_write ev p i chunk = None \<Longrightarrow>
   write_pieces ev p i (chunk # rest) =
     (fst (write_pieces ev p (Suc i) rest), FileWrite p chunk # snd (write_pieces ev p (Suc i) rest))"
  by (simp add: case_prod_beta)

lemma write_pieces_events_prefix:
  "\<exists>k \<le> length pieces. snd (write_pieces ev p i pieces) = map (FileWrite p) (take k pieces)"
proof (induction pieces arbitrary: i)
  case Nil
  then show ?case by simp
next
  case (Cons chunk rest)
  show ?case
  proof (cases "file_write ev p i chunk")
    case (Some x)
    then have "snd (write_pieces ev p i (chunk # rest)) = map (FileWrite p) (take 1 (chunk # rest))"
      by simp
    then show ?thesis by (intro exI[of _ 1]) simp
  next
    case None
    from Cons.IH[of "Suc i"] obtain k where k: "k \<le> length rest"
      "snd (write_pieces ev p (Suc i) rest) = map (FileWrite p) (take k rest)" by blast
    with None have "snd (write_pieces ev p i (chunk # rest)) = map (FileWrite p) (take (Suc k) (chunk # rest))"
      by (simp add: write_pieces_step del: write_pieces.simps)
    with k(1) show ?thesis by (intro exI[of _ "Suc k"]) simp
  qed
qed

lemma write_pieces_ok_iff:
  "fst (write_pieces ev p i pieces) = None \<longleftrightarrow>
   (\<forall>j < length pieces. file_write ev p (i + j) (pieces ! j) = None)"
proof (induction pieces arbitrary: i)
  case Nil
  then show ?case by simp
next
  case (Cons chunk rest)
  show ?case
  proof (cases "file_write ev p i chunk")
    case (Some x)
    then have "fst (write_pieces ev p i (chunk # rest)) \<noteq> None" by simp
    moreover from Some have "\<not> (\<forall>j < length (chunk # rest). file_write ev p (i + j) ((chunk # rest) ! j) = None)"
      by (auto intro: exI[of _ 0])
    ultimately show ?thesis by blast
  next
    case None
    then have "fst (write_pieces ev p i (chunk # rest)) = fst (write_pieces ev p (Suc i) rest)"
      by (simp add: write_pieces_step del: write_pieces.simps)
    moreover have "(\<forall>j < length (chunk # rest). file_write ev p (i + j) ((chunk # rest) ! j) = None) \<longleftrightarrow>
        (\<forall>j < length rest. file_write ev p (Suc i + j) (rest ! j) = None)"
      using None by (auto simp: nth_Cons split: nat.splits)
    ultimately show ?thesis using Cons.IH[of "Suc i"] by simp
  qed
qed

lemma write_pieces_ok_events:
  "fst (write_pieces ev p i pieces) = None \<Longrightarrow> snd (write_pieces ev p i pieces) = map (FileWrite p) pieces"
proof (induction pieces arbitrary: i)
  case Nil
  then show ?case by simp
next
  case (Cons chunk rest)
  show ?case
  proof (cases "file_write ev p i chunk")
    case (Some x)
    with Cons.prems show ?thesis by simp
  next
    case None
    with Cons.prems have "fst (write_pieces ev p (Suc i) rest) = None"
      by (simp add: write_pieces_step del: write_pieces.simps)
    from Cons.IH[OF this] None show ?thesis
      by (simp add: write_pieces_step del: write_pieces.simps)
  qed
qed

lemma with_file_events:
  "snd (with_file ev p r) = snd (write_pieces ev p 0 (fst (iter_content r 128))) @ [FileClose p]"
  by (simp add: with_file_def split: prod.splits option.splits)

lemma download_image_events: "snd (download_image ev url) = snd (download_image_try ev url)"
  by (simp add: download_image_def split: prod.splits sum.splits raised.splits)

lemma download_image_try_events:
  "snd (download_image_try ev url) =
     (case http_get ev (strip url) of
        Inl x \<Rightarrow> [HttpGet (strip url)]
      | Inr r \<Rightarrow>
          if status_code r = 200 then
            (case file_open ev (joinpath UPLOADS_DIR ''downloaded_image.png'') of
               Some x \<Rightarrow> [HttpGet (strip url), FileOpen (joinpath UPLOADS_DIR ''downloaded_image.png'')]
             | None \<Rightarrow>
                 [HttpGet (strip url), FileOpen (joinpath UPLOADS_DIR ''downloaded_image.png'')] @
                 snd (with_file ev (joinpath UPLOADS_DIR ''downloaded_image.png'') r))
          else [HttpGet (strip url)])"
  by (simp add: download_image_try_def Let_def split: sum.splits option.splits prod.splits)

lemma download_events:
  "\<exists>ws. snd (download_image ev url) = HttpGet (strip url) # ws \<and>
     (\<forall>e \<in> set ws. (\<exists>p. e = FileOpen p) \<or> (\<exists>p b. e = FileWrite p b) \<or> (\<exists>p. e = FileClose p))"
proof -
  let ?p = "joinpath UPLOADS_DIR ''downloaded_image.png''"
  have w: "\<forall>e \<in> set (snd (with_file ev ?p r)). (\<exists>p. e = FileOpen p) \<or> (\<exists>p b. e = FileWrite p b) \<or> (\<exists>p. e = FileClose p)"
    for r
  proof -
    obtain k where "snd (write_pieces ev ?p 0 (fst (iter_content r 128))) =
        map (FileWrite ?p) (take k (fst (iter_content r 128)))"
      using write_pieces_events_prefix[of "fst (iter_content r 128)" ev ?p 0] by blast
    then show ?thesis by (auto simp: with_file_events)
  qed
  show ?thesis
    unfolding download_image_events download_image_try_events
    using w by (auto split: sum.splits option.splits)
qed


lemma with_file_ok_iff:
  "fst (with_file ev p r) = Inr () \<longleftrightarrow>
   snd (iter_content r 128) = None \<and>
   (\<forall>i < length (fst (iter_content r 128)). file_write ev p i (fst (iter_content r 128) ! i) = None) \<and>
   file_close ev p = None"
  using write_pieces_ok_iff[of ev p 0 "fst (iter_content r 128)"]
  by (auto simp: with_file_def split: prod.splits option.splits)

lemma with_file_ok_events:
  "fst (with_file ev p r) = Inr () \<Longrightarrow>
   snd (with_file ev p r) = map (FileWrite p) (fst (iter_content r 128)) @ [FileClose p]"
  using write_pieces_ok_events[of ev p 0 "fst (iter_content r 128)"]
  by (auto simp: with_file_def split: prod.splits option.splits)

lemma with_file_stream_breaks:
  assumes "iter_content r 128 = (pieces, Some x)"
    and "\<forall>i < length pieces. file_write ev p i (pieces ! i) = None"
    and "file_close ev p = None"
  shows "with_file ev p r = (Inl x, map (FileWrite p) pieces @ [FileClose p])"
proof -
  from assms(2) have "fst (write_pieces ev p 0 pieces) = None"
    using write_pieces_ok_iff[of ev p 0 pieces] by simp
  with write_pieces_ok_events[OF this] have "write_pieces ev p 0 pieces = (None, map (FileWrite p) pieces)"
    by (simp add: prod_eq_iff)
  with assms show ?thesis by (simp add: with_file_def)
qed

text \<open>
  Claim C8, as the code has it. Download staging gives the staged path exactly when the
  GET answers 200, the fixed file under the uploads directory opens, every piece that
  \<^verbatim>\<open>iter_content(chunk_size=128)\<close> hands over is written, the stream ends without an
  exception and the file closes; the pieces are written in order as they come. It gives
  absent, with nothing written, on any other status and on an \<^verbatim>\<open>Exception\<close> from
  the GET; it gives absent when the stream ends with an \<^verbatim>\<open>Exception\<close> after the
  pieces read so far were written, and when opening the file raises an
  \<^verbatim>\<open>Exception\<close>. No \<^verbatim>\<open>Exception\<close> ever leaves it.
\<close>

theorem download_image_outcomes:
  "(\<forall>e. http_get ev (strip url) = Inl (Exception e) \<longrightarrow>
        download_image ev url = (Inr None, [HttpGet (strip url)])) \<and>
   (\<forall>r. http_get ev (strip url) = Inr r \<and> status_code r \<noteq> 200 \<longrightarrow>
        download_image ev url = (Inr None, [HttpGet (strip url)])) \<and>
   (\<forall>r pieces. http_get ev (strip url) = Inr r \<and> status_code r = 200 \<and>
        file_open ev (joinpath UPLOADS_DIR ''downloaded_image.png'') = None \<and>
        iter_content r 128 = (pieces, None) \<and>
        (\<forall>i < length pieces. file_write ev (joinpath UPLOADS_DIR ''downloaded_image.png'') i (pieces ! i) = None) \<and>
        file_close ev (joinpath UPLOADS_DIR ''downloaded_image.png'') = None \<longrightarrow>
        download_image ev url =
          (Inr (Some (joinpath UPLOADS_DIR ''downloaded_image.png'')),
           [HttpGet (strip url), FileOpen (joinpath UPLOADS_DIR ''downloaded_image.png'')] @
           map (FileWrite (joinpath UPLOADS_DIR ''downloaded_image.png'')) pieces @
           [FileClose (joinpath UPLOADS_DIR ''downloaded_image.png'')])) \<and>
   (\<forall>r pieces e. http_get ev (strip url) = Inr r \<and> status_code r = 200 \<and>
        file_open ev (joinpath UPLOADS_DIR ''downloaded_image.png'') = None \<and>
        iter_content r 128 = (pieces, Some (Exception e)) \<and>
        (\<forall>i < length pieces. file_write ev (joinpath UPLOADS_DIR ''downloaded_image.png'') i (pieces ! i) = None) \<and>
        file_close ev (joinpath UPLOADS_DIR ''downloaded_image.png'') = None \<longrightarrow>
        download_image ev url =
          (Inr None,
           [HttpGet (strip url), FileOpen (joinpath UPLOADS_DIR ''downloaded_image.png'')] @
           map (FileWrite (joinpath UPLOADS_DIR ''downloaded_image.png'')) pieces @
           [FileClose (joinpath UPLOADS_DIR ''downloaded_image.png'')])) \<and>
   (\<forall>r e. http_get ev (strip url) = Inr r \<and> status_code r = 200 \<and>
        file_open ev (joinpath UPLOADS_DIR ''downloaded_image.png'') = Some (Exception e) \<longrightarrow>
        download_image ev url =
          (Inr None, [HttpGet (strip url), FileOpen (joinpath UPLOADS_DIR ''downloaded_image.png'')])) \<and>
   (\<forall>e. fst (download_image ev url) \<noteq> Inl (Exception e)) \<and>
   (\<forall>q. fst (download_image ev url) = Inr (Some q) \<longrightarrow>
        q = joinpath UPLOADS_DIR ''downloaded_image.png'' \<and>
        (\<exists>r pieces. http_get ev (strip url) = Inr r \<and> status_code r = 200 \<and>
           file_open ev (joinpath UPLOADS_DIR ''downloaded_image.png'') = None \<and>
           iter_content r 128 = (pieces, None) \<and>
           (\<forall>i < length pieces. file_write ev (joinpath UPLOADS_DIR ''downloaded_image.png'') i (pieces ! i) = None) \<and>
           file_close ev (joinpath UPLOADS_DIR ''downloaded_image.png'') = None))"
proof -
  let ?p = "joinpath UPLOADS_DIR ''downloaded_image.png''"
  let ?u = "strip url"
  have 1: "\<forall>e. http_get ev ?u = Inl (Exception e) \<longrightarrow> download_image ev url = (Inr None, [HttpGet ?u])"
    by (simp add: download_image_def download_image_try_def Let_def)
  have 2: "\<forall>r. http_get ev ?u = Inr r \<and> status_code r \<noteq> 200 \<longrightarrow>
        download_image ev url = (Inr None, [HttpGet ?u])"
    by (simp add: download_image_def download_image_try_def Let_def)
  have 3: "download_image ev url =
          (Inr (Some ?p), [HttpGet ?u, FileOpen ?p] @ map (FileWrite ?p) pieces @ [FileClose ?p])"
    if h: "http_get ev ?u = Inr r \<and> status_code r = 200 \<and> file_open ev ?p = None \<and>
        iter_content r 128 = (pieces, None) \<and>
        (\<forall>i < length pieces. file_write ev ?p i (pieces ! i) = None) \<and> file_close ev ?p = None"
    for r pieces
  proof -
    from h have ok: "fst (with_file ev ?p r) = Inr ()" by (simp add: with_file_ok_iff)
    from with_file_ok_events[OF ok] h have "snd (with_file ev ?p r) = map (FileWrite ?p) pieces @ [FileClose ?p]"
      by simp
    with ok have "with_file ev ?p r = (Inr (), map (FileWrite ?p) pieces @ [FileClose ?p])"
      by (simp add: prod_eq_iff)
    with h show ?thesis by (simp add: download_image_def download_image_try_def Let_def)
  qed
  have 4: "download_image ev url =
          (Inr None, [HttpGet ?u, FileOpen ?p] @ map (FileWrite ?p) pieces @ [FileClose ?p])"
    if h: "http_get ev ?u = Inr r \<and> status_code r = 200 \<and> file_open ev ?p = None \<and>
        iter_content r 128 = (pieces, Some (Exception e)) \<and>
        (\<forall>i < length pieces. file_write ev ?p i (pieces ! i) = None) \<and> file_close ev ?p = None"
    for r pieces e
  proof -
    from h have "with_file ev ?p r = (Inl (Exception e), map (FileWrite ?p) pieces @ [FileClose ?p])"
      by (intro with_file_stream_breaks) simp_all
    with h show ?thesis by (simp add: download_image_def download_image_try_def Let_def)
  qed
  have 5: "\<forall>r e. http_get ev ?u = Inr r \<and> status_code r = 200 \<and> file_open ev ?p = Some (Exception e) \<longrightarrow>
        download_image ev url = (Inr None, [HttpGet ?u, FileOpen ?p])"
    by (simp add: download_image_def download_image_try_def Let_def)
  have 6: "\<forall>e. fst (download_image ev url) \<noteq> Inl (Exception e)"
    by (auto simp: download_image_def split: prod.splits sum.splits raised.splits)
  have 7: "q = ?p \<and> (\<exists>r pieces. http_get ev ?u = Inr r \<and> status_code r = 200 \<and> file_open ev ?p = None \<and>
           iter_content r 128 = (pieces, None) \<and>
           (\<forall>i < length pieces. file_write ev ?p i (pieces ! i) = None) \<and> file_close ev ?p = None)"
    if q: "fst (download_image ev url) = Inr (Some q)" for q
  proof -
    from q have t: "fst (download_image_try ev url) = Inr (Some q)"
      by (auto simp: download_image_def split: prod.splits sum.splits raised.splits)
    then obtain r where r: "http_get ev ?u = Inr r" "status_code r = 200" "file_open ev ?p = None"
      and w: "fst (with_file ev ?p r) = Inr ()" and qp: "q = ?p"
      by (auto simp: download_image_try_def Let_def split: sum.splits if_splits option.splits prod.splits)
    from w have "snd (iter_content r 128) = None"
      "\<forall>i < length (fst (iter_content r 128)). file_write ev ?p i (fst (iter_content r 128) ! i) = None"
      "file_close ev ?p = None"
      by (simp_all add: with_file_ok_iff)
    moreover from this have "iter_content r 128 = (fst (iter_content r 128), None)"
      by (simp add: prod_eq_iff)
    ultimately show ?thesis using r qp by blast
  qed
  from 1 2 3 4 5 6 7 show ?thesis by blast
qed

theorem download_image_outcomes_witness:
  "download_image serving_env ''  http://x/y.png  '' =
     (Inr (Some (joinpath UPLOADS_DIR ''downloaded_image.png'')),
      [HttpGet ''http://x/y.png'', FileOpen (joinpath UPLOADS_DIR ''downloaded_image.png''),
       FileWrite (joinpath UPLOADS_DIR ''downloaded_image.png'') ''abc'',
       FileWrite (joinpath UPLOADS_DIR ''downloaded_image.png'') ''de'',
       FileClose (joinpath UPLOADS_DIR ''downloaded_image.png'')]) \<and>
   download_image example_env ''http://x/z.png'' = (Inr None, [HttpGet ''http://x/z.png''])"
proof -
  have s1: "strip ''  http://x/y.png  '' = ''http://x/y.png''"
    by (simp add: strip_def isspace_def)
  have s2: "strip ''http://x/z.png'' = ''http://x/z.png''"
    by (simp add: strip_def isspace_def)
  have l: "\<forall>i < length [''abc'', ''de''].
      file_write serving_env (joinpath UPLOADS_DIR ''downloaded_image.png'') i ([''abc'', ''de''] ! i) = None"
    by (simp add: serving_env_def example_env_def)
  from download_image_outcomes[of serving_env "''  http://x/y.png  ''", THEN conjunct2, THEN conjunct2, THEN conjunct1,
      rule_format, of example_stream "[''abc'', ''de'']"] l
  have "download_image serving_env ''  http://x/y.png  '' =
     (Inr (Some (joinpath UPLOADS_DIR ''downloaded_image.png'')),
      [HttpGet ''http://x/y.png'', FileOpen (joinpath UPLOADS_DIR ''downloaded_image.png''),
       FileWrite (joinpath UPLOADS_DIR ''downloaded_image.png'') ''abc'',
       FileWrite (joinpath UPLOADS_DIR ''downloaded_image.png'') ''de'',
       FileClose (joinpath UPLOADS_DIR ''downloaded_image.png'')])"
    by (simp add: s1 serving_env_def example_env_def example_stream_def)
  moreover from download_image_outcomes[of example_env "''http://x/z.png''", THEN conjunct1]
  have "download_image example_env ''http://x/z.png'' = (Inr None, [HttpGet ''http://x/z.png''])"
    by (simp add: s2 example_env_def)
  ultimately show ?thesis by simp
qed

text \<open>
  Claim C8 as stated fails when the local file cannot be opened: the GET answers 200 with
  a complete body and the result is absent, not the staged path.
\<close>

theorem download_image_status_200_counterexample:
  "http_get readonly_env (strip ''http://x/y.png'') = Inr example_stream \<and>
   status_code example_stream = 200 \<and>
   snd (iter_content example_stream 128) = None \<and>
   download_image readonly_env ''http://x/y.png'' =
     (Inr None, [HttpGet ''http://x/y.png'', FileOpen (joinpath UPLOADS_DIR ''downloaded_image.png'')])"
proof -
  have s: "strip ''http://x/y.png'' = ''http://x/y.png''"
    by (simp add: strip_def isspace_def)
  show ?thesis
    by (simp add: s readonly_env_def serving_env_def example_env_def example_stream_def
        download_image_def download_image_try_def Let_def)
qed

text \<open>
  Claim C10. The address is stripped of leading and trailing whitespace before the GET:
  the one GET of a download goes to the stripped address, which is the given one without
  a whitespace prefix and suffix and neither starts nor ends with whitespace; addresses
  that differ only by surrounding whitespace give the same result and the same events.
\<close>

theorem download_image_strips_url:
  "download_image ev url = download_image ev (strip url) \<and>
   (strip u1 = strip u2 \<longrightarrow> download_image ev u1 = download_image ev u2) \<and>
   ((\<forall>c \<in> set a. isspace c) \<and> (\<forall>c \<in> set b. isspace c) \<longrightarrow>
      download_image ev (a @ url @ b) = download_image ev url) \<and>
   (\<exists>evs. snd (download_image ev url) = HttpGet (strip url) # evs) \<and>
   (\<forall>u. HttpGet u \<in> set (snd (download_image ev url)) \<longrightarrow> u = strip url) \<and>
   (\<exists>a b. url = a @ strip url @ b \<and> (\<forall>c \<in> set a. isspace c) \<and> (\<forall>c \<in> set b. isspace c)) \<and>
   (strip url \<noteq> [] \<longrightarrow> \<not> isspace (hd (strip url)) \<and> \<not> isspace (last (strip url)))"
proof -
  have eq: "download_image ev x = download_image ev y" if "strip x = strip y" for x y
    using that by (simp add: download_image_def download_image_try_def Let_def)
  have "download_image ev url = download_image ev (strip url)"
    by (rule eq) (simp add: strip_idem)
  moreover have "strip u1 = strip u2 \<longrightarrow> download_image ev u1 = download_image ev u2"
    using eq by blast
  moreover have "(\<forall>c \<in> set a. isspace c) \<and> (\<forall>c \<in> set b. isspace c) \<longrightarrow>
      download_image ev (a @ url @ b) = download_image ev url"
    using eq[of "a @ url @ b" url] strip_surrounding[of a b url] by blast
  moreover have "\<exists>evs. snd (download_image ev url) = HttpGet (strip url) # evs"
    using download_events[of ev url] by blast
  moreover have "\<forall>u. HttpGet u \<in> set (snd (download_image ev url)) \<longrightarrow> u = strip url"
    using download_events[of ev url] by auto
  ultimately show ?thesis
    using strip_decompose[of url] strip_ends[of url] by blast
qed

theorem download_image_strips_url_witness:
  "isspace CHR '' '' \<and>
   strip ''  http://x/y.png  '' = strip ''http://x/y.png'' \<and>
   strip ''  http://x/y.png  '' \<noteq> [] \<and>
   download_image example_env ''  http://x/y.png  '' = download_image example_env ''http://x/y.png'' \<and>
   HttpGet ''http://x/y.png'' \<in> set (snd (download_image example_env ''  http://x/y.png  ''))"
proof -
  have s1: "strip ''  http://x/y.png  '' = ''http://x/y.png''"
    by (simp add: strip_def isspace_def)
  have s2: "strip ''http://x/y.png'' = ''http://x/y.png''"
    by (simp add: strip_def isspace_def)
  have w: "isspace CHR '' ''" by (simp add: isspace_def)
  note t = download_image_strips_url[of example_env "''  http://x/y.png  ''" "''  http://x/y.png  ''"
      "''http://x/y.png''" "''  ''" "''  ''"]
  from t[THEN conjunct1] have "download_image example_env ''  http://x/y.png  '' =
      download_image example_env (strip ''  http://x/y.png  '')" .
  then have e: "download_image example_env ''  http://x/y.png  '' = download_image example_env ''http://x/y.png''"
    by (simp only: s1)
  from t[THEN conjunct2, THEN conjunct2, THEN conjunct2, THEN conjunct1]
  obtain evs where "snd (download_image example_env ''  http://x/y.png  '') = HttpGet (strip ''  http://x/y.png  '') # evs"
    by blast
  then have "HttpGet (strip ''  http://x/y.png  '') \<in> set (snd (download_image example_env ''  http://x/y.png  ''))"
    by simp
  then have g: "HttpGet ''http://x/y.png'' \<in> set (snd (download_image example_env ''  http://x/y.png  ''))"
    by (simp only: s1)
  have n: "strip ''  http://x/y.png  '' \<noteq> []" by (simp only: s1) simp
  have q: "strip ''  http://x/y.png  '' = strip ''http://x/y.png''" by (simp only: s1 s2)
  from w q n e g show ?thesis by blast
qed

section \<open>Properties of the routes\<close>

text \<open>
  Claim C2. A route whose capability has no client in the registry answers 503 with an
  error message and performs no event at all, whatever the request holds: the registry is
  consulted before the request is read.
\<close>

theorem unavailable_capability_gives_503:
  assumes "capability r = Some cap" and "clients ev cap = None"
  shows "\<exists>msg. handle cfg ev r req = (Inr (jsonify 503 [(''error'', JStr msg)]), [])"
  using assms
  by (cases r)
     (auto simp: capability_def handle_def predict_def predict_try_def upload_ocassion_def
        upload_ocassion_try_def upload_files_def upload_files_try_def handle_prompt_def
        handle_prompt_try_def handleocassion_def handleocassion_try_def catch_route_def ret_def)

theorem unavailable_capability_gives_503_witness:
  "capability POST_upload = Some ''virtual_tryon'' \<and> clients example_env ''virtual_tryon'' = None \<and>
   handle CLIENTS example_env POST_upload example_request =
     (Inr (jsonify 503 [(''error'', JStr ''Virtual try-on service not available'')]), [])"
  using unavailable_capability_gives_503[of POST_upload "''virtual_tryon''" example_env CLIENTS example_request]
  by (simp add: capability_def example_env_def handle_def upload_files_def upload_files_try_def
      catch_route_def ret_def)

section \<open>Exceptions at the route boundary\<close>


















section \<open>Requests with a missing field\<close>

lemma bad_prompt:
  "bad_request_case POST_handleprompt req \<Longrightarrow>
   \<exists>kvs. json_body req = Inr (JDict kvs) \<and>
     (map_of kvs ''prompt'' = None \<or> (\<exists>v. map_of kvs ''prompt'' = Some v \<and> \<not> truthy v))"
  by (auto simp: bad_request_case_def split: sum.splits json.splits option.splits)

lemma bad_occasion:
  "bad_request_case POST_handleocassion req \<Longrightarrow>
   \<exists>kvs. json_body req = Inr (JDict kvs) \<and>
     (map_of kvs ''color'' = None \<or> (\<exists>v. map_of kvs ''color'' = Some v \<and> \<not> truthy v) \<or>
      map_of kvs ''selectedOccasion'' = None \<or> (\<exists>v. map_of kvs ''selectedOccasion'' = Some v \<and> \<not> truthy v))"
  by (auto simp: bad_request_case_def split: sum.splits json.splits option.splits)

lemma truthy_JNull: "\<not> truthy JNull"
  by (simp add: truthy_def)

lemma py_get_dict:
  "py_get (JDict kvs) k = Inr (case map_of kvs k of Some v \<Rightarrow> v | None \<Rightarrow> JNull)"
  by (simp add: py_get_def split: option.splits)

lemma handle_prompt_400:
  assumes "clients ev ''text_to_dress'' = Some cl" and "bad_request_case POST_handleprompt req"
  shows "handle_prompt ev req = (Inr (jsonify 400 [(''error'', JStr ''No prompt provided'')]), [])"
proof -
  from bad_prompt[OF assms(2)] obtain kvs where k: "json_body req = Inr (JDict kvs)"
    and f: "\<not> truthy (case map_of kvs ''prompt'' of Some v \<Rightarrow> v | None \<Rightarrow> JNull)"
    by (auto simp: truthy_JNull)
  show ?thesis
    unfolding handle_prompt_def handle_prompt_try_def
    using assms(1) k f
    by (simp add: bind_def lift_def ret_def catch_route_def py_get_dict)
qed

lemma handleocassion_400:
  assumes "clients ev ''occasion'' = Some cl" and "bad_request_case POST_handleocassion req"
  shows "handleocassion ev req = (Inr (jsonify 400 [(''error'', JStr ''Color and occasion are required'')]), [])"
proof -
  from bad_occasion[OF assms(2)] obtain kvs where k: "json_body req = Inr (JDict kvs)"
    and f: "\<not> truthy (case map_of kvs ''color'' of Some v \<Rightarrow> v | None \<Rightarrow> JNull) \<or>
            \<not> truthy (case map_of kvs ''selectedOccasion'' of Some v \<Rightarrow> v | None \<Rightarrow> JNull)"
    by (auto simp: truthy_JNull)
  show ?thesis
    unfolding handleocassion_def handleocassion_try_def
    using assms(1) k f
    by (simp add: bind_def lift_def ret_def catch_route_def py_get_dict)
qed


lemma upload_files_400:
  assumes "clients ev ''virtual_tryon'' = Some cl" and "bad_request_case POST_upload req"
  shows "\<exists>msg. upload_files ev req = (Inr (jsonify 400 [(''error'', JStr msg)]), [])"
proof (cases "files req ''uploadedFile''")
  case None
  with assms(1) have "upload_files ev req = (Inr (jsonify 400 [(''error'', JStr ''No file part'')]), [])"
    by (simp add: upload_files_def upload_files_try_def catch_route_def ret_def)
  then show ?thesis by blast
next
  case (Some f)
  with assms(2) have "filename f = []" by (simp add: bad_request_case_def)
  with Some assms(1) have "upload_files ev req = (Inr (jsonify 400 [(''error'', JStr ''No selected file'')]), [])"
    by (simp add: upload_files_def upload_files_try_def catch_route_def ret_def)
  then show ?thesis by blast
qed

lemma upload_ocassion_400:
  assumes "clients ev ''virtual_tryon'' = Some cl" and "bad_request_case POST_uploadocassion req"
  shows "upload_ocassion ev req = (Inr (jsonify 400 [(''error'', JStr ''No file part'')]), [])"
proof -
  from assms(2) have "files req ''uploadedFile'' = None" by (simp add: bad_request_case_def)
  with assms(1) show ?thesis
    by (simp add: upload_ocassion_def upload_ocassion_try_def catch_route_def ret_def)
qed

lemma predict_missing_text:
  assumes "clients ev ''chatbot'' = Some cl" and "json_body req = Inr (JDict kvs)" and "map_of kvs ''text'' = None"
  shows "predict ev req = (Inr (jsonify 500 [(''error'', JStr ([quote] @ ''text'' @ [quote]))]), [])"
  using assms
  by (simp add: predict_def predict_try_def catch_route_def bind_def lift_def py_getitem_def)

text \<open>
  Claim C1, as the code has it. With the capability bound, a request that lacks the
  uploaded file part (\<^verbatim>\<open>/upload\<close>, \<^verbatim>\<open>/uploadocassion\<close>) or has an empty filename
  (\<^verbatim>\<open>/upload\<close>), or whose JSON object lacks a prompt (\<^verbatim>\<open>/handleprompt\<close>) or a colour
  or an occasion (\<^verbatim>\<open>/handleocassion\<close>) or holds an empty one, is answered 400 with no
  event at all. \<^verbatim>\<open>/predict\<close> on a JSON object without \<^verbatim>\<open>text\<close> is answered 500
  with the message of the \<^verbatim>\<open>KeyError\<close>, also with no event.
\<close>

theorem bad_request_has_no_effects:
  "(capability r = Some cap \<and> clients ev cap \<noteq> None \<and> bad_request_case r req \<longrightarrow>
      (\<exists>msg. handle cfg ev r req = (Inr (jsonify 400 [(''error'', JStr msg)]), []))) \<and>
   (clients ev ''chatbot'' \<noteq> None \<and> json_body req = Inr (JDict kvs) \<and> map_of kvs ''text'' = None \<longrightarrow>
      handle cfg ev POST_predict req = (Inr (jsonify 500 [(''error'', JStr ([quote] @ ''text'' @ [quote]))]), []))"
proof (intro conjI impI)
  assume a: "capability r = Some cap \<and> clients ev cap \<noteq> None \<and> bad_request_case r req"
  then obtain cl where cl: "clients ev cap = Some cl" by auto
  show "\<exists>msg. handle cfg ev r req = (Inr (jsonify 400 [(''error'', JStr msg)]), [])"
  proof (cases r)
    case GET_health
    with a show ?thesis by (simp add: capability_def)
  next
    case POST_predict
    with a show ?thesis by (simp add: bad_request_case_def)
  next
    case POST_uploadocassion
    with a cl have "clients ev ''virtual_tryon'' = Some cl" "bad_request_case POST_uploadocassion req"
      by (auto simp: capability_def)
    from upload_ocassion_400[OF this] POST_uploadocassion show ?thesis by (auto simp: handle_def)
  next
    case POST_upload
    with a cl have "clients ev ''virtual_tryon'' = Some cl" "bad_request_case POST_upload req"
      by (auto simp: capability_def)
    from upload_files_400[OF this] POST_upload show ?thesis by (auto simp: handle_def)
  next
    case POST_handleprompt
    with a cl have "clients ev ''text_to_dress'' = Some cl" "bad_request_case POST_handleprompt req"
      by (auto simp: capability_def)
    from handle_prompt_400[OF this] POST_handleprompt show ?thesis by (auto simp: handle_def)
  next
    case POST_handleocassion
    with a cl have "clients ev ''occasion'' = Some cl" "bad_request_case POST_handleocassion req"
      by (auto simp: capability_def)
    from handleocassion_400[OF this] POST_handleocassion show ?thesis by (auto simp: handle_def)
  qed
next
  assume a: "clients ev ''chatbot'' \<noteq> None \<and> json_body req = Inr (JDict kvs) \<and> map_of kvs ''text'' = None"
  then obtain cl where "clients ev ''chatbot'' = Some cl" by auto
  from predict_missing_text[OF this] a
  show "handle cfg ev POST_predict req = (Inr (jsonify 500 [(''error'', JStr ([quote] @ ''text'' @ [quote]))]), [])"
    by (simp add: handle_def)
qed

theorem bad_request_has_no_effects_witness:
  "capability POST_upload = Some ''virtual_tryon'' \<and>
   clients (example_env\<lparr>clients := [''virtual_tryon'' \<mapsto> Client ''https://virtual-try-on.hf.space/'',
                                    ''chatbot'' \<mapsto> Client ''https://fashion-chatbot.hf.space/'']\<rparr>) ''virtual_tryon'' \<noteq> None \<and>
   bad_request_case POST_upload example_request \<and>
   handle CLIENTS
     (example_env\<lparr>clients := [''virtual_tryon'' \<mapsto> Client ''https://virtual-try-on.hf.space/'',
                              ''chatbot'' \<mapsto> Client ''https://fashion-chatbot.hf.space/'']\<rparr>)
     POST_upload example_request = (Inr (jsonify 400 [(''error'', JStr ''No file part'')]), []) \<and>
   handle CLIENTS
     (example_env\<lparr>clients := [''virtual_tryon'' \<mapsto> Client ''https://virtual-try-on.hf.space/'',
                              ''chatbot'' \<mapsto> Client ''https://fashion-chatbot.hf.space/'']\<rparr>)
     POST_predict example_request = (Inr (jsonify 500 [(''error'', JStr ([quote] @ ''text'' @ [quote]))]), [])"
  using bad_request_has_no_effects
    [of POST_upload "''virtual_tryon''"
        "example_env\<lparr>clients := [''virtual_tryon'' \<mapsto> Client ''https://virtual-try-on.hf.space/'',
                              ''chatbot'' \<mapsto> Client ''https://fashion-chatbot.hf.space/'']\<rparr>"
        example_request CLIENTS "[]"]
  by (simp add: capability_def bad_request_case_def example_env_def example_request_def handle_def
      upload_files_def upload_files_try_def catch_route_def ret_def)

text \<open>
  Claim C1 as stated fails on \<^verbatim>\<open>/predict\<close>: with the chatbot client bound and a JSON
  object without \<^verbatim>\<open>text\<close>, the answer is 500, not 400.
\<close>

theorem predict_missing_text_counterexample:
  "capability POST_predict = Some ''chatbot'' \<and>
   clients (example_env\<lparr>clients := [''chatbot'' \<mapsto> Client ''https://fashion-chatbot.hf.space/'']\<rparr>) ''chatbot''
     = Some (Client ''https://fashion-chatbot.hf.space/'') \<and>
   json_body example_request = Inr (JDict []) \<and>
   handle CLIENTS (example_env\<lparr>clients := [''chatbot'' \<mapsto> Client ''https://fashion-chatbot.hf.space/'']\<rparr>)
     POST_predict example_request
     = (Inr \<lparr>status = 500, body = JDict [(''error'', JStr [CHR 0x27, CHR ''t'', CHR ''e'', CHR ''x'', CHR ''t'', CHR 0x27])]\<rparr>, []) \<and>
   status \<lparr>status = 500, body = JDict [(''error'', JStr [CHR 0x27, CHR ''t'', CHR ''e'', CHR ''x'', CHR ''t'', CHR 0x27])]\<rparr> \<noteq> 400"
  by (simp add: capability_def example_env_def example_request_def handle_def predict_def predict_try_def
      catch_route_def bind_def lift_def py_getitem_def jsonify_def quote_def)


text \<open>
  On \<^verbatim>\<open>/uploadocassion\<close> the empty filename is looked at only after the download, and
  a missing \<^verbatim>\<open>url\<close> field raises inside the handler: the first is answered 400 after
  the GET and the file writes, the second 500.
\<close>

lemma upload_ocassion_checks_filename_late:
  "upload_ocassion
     (serving_env\<lparr>clients := [''virtual_tryon'' \<mapsto> Client ''https://virtual-try-on.hf.space/'']\<rparr>)
     (example_request\<lparr>files := [''uploadedFile'' \<mapsto> \<lparr>filename = [], payload = []\<rparr>],
                      form := [''url'' \<mapsto> ''http://x/y.png'']\<rparr>) =
   (Inr (jsonify 400 [(''error'', JStr ''No selected file'')]),
    [HttpGet ''http://x/y.png'', FileOpen (joinpath UPLOADS_DIR ''downloaded_image.png''),
     FileWrite (joinpath UPLOADS_DIR ''downloaded_image.png'') ''abc'',
     FileWrite (joinpath UPLOADS_DIR ''downloaded_image.png'') ''de'',
     FileClose (joinpath UPLOADS_DIR ''downloaded_image.png'')])"
proof -
  have s: "strip ''http://x/y.png'' = ''http://x/y.png''"
    by (simp add: strip_def isspace_def)
  show ?thesis
    by (simp add: upload_ocassion_def upload_ocassion_try_def serving_env_def example_env_def
        example_request_def example_stream_def catch_route_def bind_def lift_def ret_def
        download_image_def download_image_try_def with_file_def Let_def s)
qed

lemma upload_ocassion_missing_url:
  "upload_ocassion
     (example_env\<lparr>clients := [''virtual_tryon'' \<mapsto> Client ''https://virtual-try-on.hf.space/'']\<rparr>)
     (example_request\<lparr>files := [''uploadedFile'' \<mapsto> \<lparr>filename = ''shirt.png'', payload = ''abc''\<rparr>]\<rparr>) =
   (Inr (jsonify 500 [(''error'', JStr (exn_msg bad_request_key))]), [])"
  by (simp add: upload_ocassion_def upload_ocassion_try_def example_env_def example_request_def
      catch_route_def bind_def lift_def)

end
